theory Spec2Isabelle
  imports Main "HOL-Library.AList" "HOL-Library.Char_ord" "HOL-Library.List_Lexorder"
begin

section \<open>The spreadsheet bot: file discovery, normalisation, packing, delivery\<close>

text \<open>
  A shallow embedding of \<^verbatim>\<open>bot.py\<close> as it runs on a POSIX system: the path separator is
  \<^verbatim>\<open>/\<close> and \<^verbatim>\<open>glob\<close> matches names case-sensitively. Strings are byte strings; \<^verbatim>\<open>lower()\<close>
  folds the ASCII letters. Everything outside the repository that the code calls is a
  parameter: the temporary directory, the spreadsheet library's conversion, the
  messaging channel, and the faults with which the console and the archive library raise.
\<close>

subsection \<open>Strings and paths\<close>

type_synonym path = string

definition lower_char :: "char \<Rightarrow> char" where
  "lower_char c =
     (let n = (of_char c :: nat) in if 65 \<le> n \<and> n \<le> 90 then char_of (n + 32) else c)"

definition lower :: "string \<Rightarrow> string" where
  "lower s = map lower_char s"

definition endswith :: "string \<Rightarrow> string \<Rightarrow> bool" where
  "endswith s suf \<longleftrightarrow>
     length suf \<le> length s \<and> drop (length s - length suf) s = suf"

definition startswith :: "string \<Rightarrow> string \<Rightarrow> bool" where
  "startswith s pre \<longleftrightarrow> take (length pre) s = pre"

text \<open>\<^verbatim>\<open>str.strip(chars)\<close>: drop the given characters at both ends.\<close>

definition strip_chars :: "char list \<Rightarrow> string \<Rightarrow> string" where
  "strip_chars cs s =
     rev (dropWhile (\<lambda>c. c \<in> set cs) (rev (dropWhile (\<lambda>c. c \<in> set cs) s)))"

definition whitespace :: "char list" where
  "whitespace = map char_of [9, 10, 11, 12, 13, 28, 29, 30, 31, 32 :: nat]"

definition strip :: "string \<Rightarrow> string" where
  "strip s = strip_chars whitespace s"

text \<open>\<^verbatim>\<open>os.path.join\<close> of two components (posixpath).\<close>

definition join :: "path \<Rightarrow> string \<Rightarrow> path" where
  "join a b =
     (if startswith b ''/'' then b
      else if a = [] \<or> endswith a ''/'' then a @ b
      else a @ ''/'' @ b)"

text \<open>\<^verbatim>\<open>str.split(sep)\<close> for a one-character separator.\<close>

fun split_on :: "char \<Rightarrow> string \<Rightarrow> string list" where
  "split_on sep [] = [[]]"
| "split_on sep (c # cs) =
     (if c = sep then [] # split_on sep cs
      else (case split_on sep cs of
              [] \<Rightarrow> [[c]]
            | w # ws \<Rightarrow> (c # w) # ws))"

text \<open>
  \<^verbatim>\<open>Path(p).name\<close>: the last component of the path, after empty and \<^verbatim>\<open>.\<close> components
  are dropped; the empty string when there is none.
\<close>

definition path_parts :: "path \<Rightarrow> string list" where
  "path_parts p = filter (\<lambda>x. x \<noteq> [] \<and> x \<noteq> ''.'') (split_on CHR ''/'' p)"

definition path_name :: "path \<Rightarrow> string" where
  "path_name p = (case path_parts p of [] \<Rightarrow> [] | _ \<Rightarrow> last (path_parts p))"

text \<open>
  \<^verbatim>\<open>Path(p).stem\<close>: with \<open>i\<close> the index of the last dot of the name, the name up to
  \<open>i\<close> when \<open>0 < i < len(name) - 1\<close>, the whole name otherwise.
\<close>

definition rfind_dot :: "string \<Rightarrow> nat option" where
  "rfind_dot s =
     (if CHR ''.'' \<in> set s
      then Some (length s - 1 - length (takeWhile (\<lambda>c. c \<noteq> CHR ''.'') (rev s)))
      else None)"

definition stem_of_name :: "string \<Rightarrow> string" where
  "stem_of_name n =
     (case rfind_dot n of
        None \<Rightarrow> n
      | Some i \<Rightarrow> if 0 < i \<and> i + 1 < length n then take i n else n)"

definition path_stem :: "path \<Rightarrow> string" where
  "path_stem p = stem_of_name (path_name p)"

subsection \<open>The file system, the console and the channel\<close>

text \<open>
  A file holds raw bytes or is an archive, a list of named members in the order they
  were added. The file system maps each path, as the program spells it, to a node.
\<close>

datatype content = Raw string | Zip "(string \<times> content) list"

datatype node = File content | Dir

type_synonym filesystem = "(path \<times> node) list"

datatype error =
    RuntimeError
  | FileExistsError
  | FileNotFoundError
  | IsADirectoryError
  | PermissionError
  | ValueError
  | UnicodeEncodeError
  | OSError
  | ExcelReadError
  | TransmissionFailure

text \<open>
  What goes out on the channel: a text, a text with one link button (text, address), or
  a document (content, file name, caption).
\<close>

datatype message =
    ReplyText string
  | ReplyWithButton string string
  | ReplyDocument content string string

datatype console_line = WarnExcelFailed path error

text \<open>
  The operations of the archive library on the archive: opening it for writing, adding
  the file at a path under a name, closing it.
\<close>

datatype zip_op = OpenArchive path | WriteMember path string | CloseArchive path

record world =
  files :: filesystem
  console :: "console_line list"
  outbox :: "message list"

definition isfile :: "filesystem \<Rightarrow> path \<Rightarrow> bool" where
  "isfile fs p = (case map_of fs p of Some (File c) \<Rightarrow> True | _ \<Rightarrow> False)"

definition isdir :: "filesystem \<Rightarrow> path \<Rightarrow> bool" where
  "isdir fs p = (case map_of fs p of Some Dir \<Rightarrow> True | _ \<Rightarrow> False)"

definition write_file :: "path \<Rightarrow> content \<Rightarrow> filesystem \<Rightarrow> filesystem" where
  "write_file p c fs = AList.update p (File c) fs"

text \<open>\<^verbatim>\<open>try: os.remove(p)  except: pass\<close>: a regular file is removed, anything else stays.\<close>

definition remove_quiet :: "path \<Rightarrow> filesystem \<Rightarrow> filesystem" where
  "remove_quiet p fs = (if isfile fs p then AList.delete p fs else fs)"

text \<open>
  \<^verbatim>\<open>os.makedirs(d, exist_ok=True)\<close>: nothing happens to a directory, a missing one is
  created, a regular file in its place raises. The file system below does not record
  the parents of a path, so none is created.
\<close>

definition makedirs :: "path \<Rightarrow> filesystem \<Rightarrow> error + filesystem" where
  "makedirs d fs =
     (case map_of fs d of
        Some Dir \<Rightarrow> Inr fs
      | Some (File c) \<Rightarrow> Inl FileExistsError
      | None \<Rightarrow> Inr (AList.update d Dir fs))"

text \<open>
  The names in a directory: the paths of the file system that are the directory joined
  with a single non-empty component.
\<close>

definition entry_name :: "path \<Rightarrow> path \<Rightarrow> string option" where
  "entry_name d p =
     (let pre = join d [] in
      if startswith p pre \<and> length pre < length p
           \<and> CHR ''/'' \<notin> set (drop (length pre) p)
      then Some (drop (length pre) p) else None)"

definition listdir :: "filesystem \<Rightarrow> path \<Rightarrow> string list" where
  "listdir fs d = List.map_filter (\<lambda>(p, n). entry_name d p) fs"

text \<open>
  The configuration read at start, and what the program takes from its platform: the
  temporary directory, the conversion of the first sheet of a workbook to delimited
  text (\<open>None\<close> when the library raises), the channel (\<open>False\<close> when sending raises),
  the exception with which \<^verbatim>\<open>print\<close> leaves on a line, if any (a stream that cannot
  encode the line, a closed stream), the exception with which an operation of the
  archive library leaves for a reason the file system below does not show, if any (a
  file it may not read, a time stamp the format refuses, a full disk), and what a reader
  finds in the archive's own file while it is open for writing, the given members having
  been added (the library's buffers decide).
\<close>

record config =
  bot_token :: string
  stoxeye_url :: string
  csv_target :: path

record platform =
  tempdir :: path
  excel_to_csv :: "content \<Rightarrow> content option"
  deliver :: "message \<Rightarrow> bool"
  print_fault :: "console_line \<Rightarrow> error option"
  zip_fault :: "zip_op \<Rightarrow> error option"
  archive_seen :: "(string \<times> content) list \<Rightarrow> content"

subsection \<open>Start-up\<close>

definition getenv :: "(string \<rightharpoonup> string) \<Rightarrow> string \<Rightarrow> string \<Rightarrow> string" where
  "getenv env k dflt = (case env k of None \<Rightarrow> dflt | Some v \<Rightarrow> v)"

text \<open>
  The module's top level. \<open>normalise\<close> stands for
  \<^verbatim>\<open>os.path.normpath(os.path.expanduser(...))\<close>, which never raises.
\<close>

definition startup :: "(string \<rightharpoonup> string) \<Rightarrow> (string \<Rightarrow> path) \<Rightarrow> error + config" where
  "startup env normalise =
     (let token = strip (getenv env ''BOT_TOKEN'' []);
          url = strip (getenv env ''STOXEYE_URL'' ''https://your-stoxeye-site.example'');
          target = getenv env ''CSV_DIR'' ''sample_portfolios'';
          target = strip_chars [CHR 0x27] (strip_chars [CHR 0x22] (strip target));
          target = normalise target
      in if token = [] then Inl RuntimeError
         else Inr \<lparr>bot_token = token, stoxeye_url = url, csv_target = target\<rparr>)"

subsection \<open>Source resolver\<close>

text \<open>
  \<^verbatim>\<open>glob.glob(os.path.join(d, "*" + suffix))\<close> for a normalised directory name without
  wildcard characters: the listed names that do not start with a dot and end with the
  suffix, each joined with the directory.
\<close>

definition glob_star :: "filesystem \<Rightarrow> path \<Rightarrow> string \<Rightarrow> path list" where
  "glob_star fs d suf =
     map (join d) (filter (\<lambda>n. \<not> startswith n ''.'' \<and> endswith n suf) (listdir fs d))"

definition patterns :: "string list" where
  "patterns = [''.csv'', ''.CSV'', ''.xlsx'', ''.xls'']"

text \<open>
  \<^verbatim>\<open>sorted(set(files), key=lambda p: p.lower())\<close>: the distinct paths, stably sorted by
  their lower-cased spelling. The order in which the set hands over paths with equal
  keys is not fixed by the language; the model takes the order \<open>remdups\<close> leaves.
\<close>

definition list_from_dir :: "path \<Rightarrow> filesystem \<Rightarrow> error + (path list \<times> filesystem)" where
  "list_from_dir d fs =
     (case makedirs d fs of
        Inl e \<Rightarrow> Inl e
      | Inr fs' \<Rightarrow>
          Inr (sort_key lower (remdups (concat (map (glob_star fs' d) patterns))), fs'))"

definition find_sources :: "config \<Rightarrow> filesystem \<Rightarrow> error + (path list \<times> filesystem)" where
  "find_sources cfg fs =
     (if isfile fs (csv_target cfg) then Inr ([csv_target cfg], fs)
      else list_from_dir (csv_target cfg) fs)"

subsection \<open>Normaliser\<close>

definition out_path :: "platform \<Rightarrow> path \<Rightarrow> path" where
  "out_path pl excel_path = join (tempdir pl) (path_stem excel_path @ ''.csv'')"

definition convert_excel_to_csv ::
  "platform \<Rightarrow> path \<Rightarrow> filesystem \<Rightarrow> error + (path \<times> filesystem)" where
  "convert_excel_to_csv pl excel_path fs =
     (case map_of fs excel_path of
        None \<Rightarrow> Inl FileNotFoundError
      | Some Dir \<Rightarrow> Inl IsADirectoryError
      | Some (File c) \<Rightarrow>
          (case excel_to_csv pl c of
             None \<Rightarrow> Inl ExcelReadError
           | Some df \<Rightarrow>
               if isdir fs (out_path pl excel_path) then Inl IsADirectoryError
               else Inr (out_path pl excel_path,
                         write_file (out_path pl excel_path) df fs)))"

definition is_csv :: "path \<Rightarrow> bool" where
  "is_csv p \<longleftrightarrow> endswith (lower p) ''.csv''"

definition is_excel :: "path \<Rightarrow> bool" where
  "is_excel p \<longleftrightarrow> endswith (lower p) ''.xlsx'' \<or> endswith (lower p) ''.xls''"

type_synonym entry = "path \<times> string"

text \<open>
  A run that an exception leaves gives the exception and the world left behind; the
  locals are lost.
\<close>

type_synonym 'a outcome = "(error \<times> world) + 'a"

text \<open>
  One round of the loop of \<^verbatim>\<open>prepare_files\<close> over its locals and the world. The warning
  is printed inside the handler of the conversion's exception, before the entry is
  appended: when \<^verbatim>\<open>print\<close> raises, the exception leaves the function.
\<close>

definition prepare_step ::
  "platform \<Rightarrow> entry list \<times> path list \<times> world \<Rightarrow> path \<Rightarrow>
     (entry list \<times> path list \<times> world) outcome" where
  "prepare_step pl st p =
     (case st of (pairs, temps, w) \<Rightarrow>
        if is_csv p then Inr (pairs @ [(p, path_name p)], temps, w)
        else if is_excel p then
          (case convert_excel_to_csv pl p (files w) of
             Inr (cp, fs') \<Rightarrow>
               Inr (pairs @ [(cp, path_stem p @ ''_converted.csv'')], temps @ [cp],
                    w\<lparr>files := fs'\<rparr>)
           | Inl e \<Rightarrow>
               (case print_fault pl (WarnExcelFailed p e) of
                  Some x \<Rightarrow> Inl (x, w)
                | None \<Rightarrow>
                    Inr (pairs @ [(p, path_name p)], temps,
                         w\<lparr>console := console w @ [WarnExcelFailed p e]\<rparr>)))
        else Inr (pairs, temps, w))"

fun prepare_loop ::
  "platform \<Rightarrow> path list \<Rightarrow> entry list \<times> path list \<times> world \<Rightarrow>
     (entry list \<times> path list \<times> world) outcome" where
  "prepare_loop pl [] st = Inr st"
| "prepare_loop pl (p # src) st =
     (case prepare_step pl st p of
        Inl x \<Rightarrow> Inl x
      | Inr st' \<Rightarrow> prepare_loop pl src st')"

text \<open>The normaliser on given paths: the loop from empty locals.\<close>

definition prepare ::
  "platform \<Rightarrow> path list \<Rightarrow> world \<Rightarrow> (entry list \<times> path list \<times> world) outcome" where
  "prepare pl src w = prepare_loop pl src ([], [], w)"

definition prepare_files ::
  "config \<Rightarrow> platform \<Rightarrow> world \<Rightarrow> (entry list \<times> path list \<times> world) outcome" where
  "prepare_files cfg pl w =
     (case find_sources cfg (files w) of
        Inl e \<Rightarrow> Inl (e, w)
      | Inr (src, fs') \<Rightarrow> prepare pl src (w\<lparr>files := fs'\<rparr>))"

subsection \<open>Packager\<close>

definition zip_path :: "platform \<Rightarrow> path" where
  "zip_path pl = join (tempdir pl) ''test_portfolios.zip''"

text \<open>
  The loop of \<^verbatim>\<open>zip_pairs\<close>: the members added so far, in order. Adding a member raises
  when the library does; the members added before it stay. An entry that names the
  archive itself is read from the file under construction.
\<close>

fun zip_write_all ::
  "platform \<Rightarrow> filesystem \<Rightarrow> entry list \<Rightarrow> (string \<times> content) list \<Rightarrow>
     (error \<times> (string \<times> content) list) + (string \<times> content) list" where
  "zip_write_all pl fs [] zf = Inr zf"
| "zip_write_all pl fs ((p, name) # pairs) zf =
     (case map_of fs p of
        Some (File c) \<Rightarrow>
          (case zip_fault pl (WriteMember p name) of
             Some x \<Rightarrow> Inl (x, zf)
           | None \<Rightarrow>
               zip_write_all pl fs pairs
                 (zf @ [(name, if p = zip_path pl then archive_seen pl zf else c)]))
      | _ \<Rightarrow> zip_write_all pl fs pairs zf)"

text \<open>
  Opening the archive for writing truncates the file at the fixed path (and raises when
  a directory is there, or when the library does); the members are read while it is
  open; leaving the \<^verbatim>\<open>with\<close> block closes it, also on an exception, and writes the archive
  of the members added. What a close that raises leaves in the file is not known: the
  model leaves the truncated file.
\<close>

definition zip_pairs ::
  "platform \<Rightarrow> entry list \<Rightarrow> filesystem \<Rightarrow> (error \<times> filesystem) + (path \<times> filesystem)" where
  "zip_pairs pl pairs fs =
     (if isdir fs (zip_path pl) then Inl (IsADirectoryError, fs)
      else
        (case zip_fault pl (OpenArchive (zip_path pl)) of
           Some x \<Rightarrow> Inl (x, fs)
         | None \<Rightarrow>
             (let fs0 = write_file (zip_path pl) (Zip []) fs in
              case zip_write_all pl fs0 pairs [] of
                Inl (x, zf) \<Rightarrow> Inl (x, write_file (zip_path pl) (Zip zf) fs0)
              | Inr zf \<Rightarrow>
                  (case zip_fault pl (CloseArchive (zip_path pl)) of
                     Some x \<Rightarrow> Inl (x, fs0)
                   | None \<Rightarrow> Inr (zip_path pl, write_file (zip_path pl) (Zip zf) fs0)))))"

subsection \<open>Handlers\<close>

text \<open>
  The texts are the program's, in ASCII: their pictographs are left out, the typographic
  apostrophe, dash and dot are written plainly.
\<close>

definition WELCOME_TEXT :: string where
  "WELCOME_TEXT =
     ''Hey! Here is the StoxEye link and test CSV files.'' @ [CHR 0x0A, CHR 0x0A] @
     ''Open StoxEye, upload a CSV, and play with the demo portfolio.''"

definition no_files_text :: "string \<Rightarrow> string" where
  "no_files_text hint = ''No CSV/Excel files found at '' @ hint"

definition zip_caption :: string where
  "zip_caption = ''All sample portfolios (CSV). Import any one into StoxEye.''"

definition file_caption :: "string \<Rightarrow> string" where
  "file_caption name = name @ '' - import into StoxEye.''"

definition help_text :: string where
  "help_text =
     ''Say hi or use /start for link + ZIP.'' @ [CHR 0x0A] @
     ''Commands: /zip (one ZIP) - /files (send individually)''"

definition reply :: "platform \<Rightarrow> message \<Rightarrow> world \<Rightarrow> error + world" where
  "reply pl m w =
     (if deliver pl m then Inr (w\<lparr>outbox := outbox w @ [m]\<rparr>) else Inl TransmissionFailure)"

definition link_message :: "config \<Rightarrow> message" where
  "link_message cfg =
     ReplyWithButton (WELCOME_TEXT @ [CHR 0x0A, CHR 0x0A] @ stoxeye_url cfg) (stoxeye_url cfg)"

definition send_link :: "config \<Rightarrow> platform \<Rightarrow> world \<Rightarrow> error + world" where
  "send_link cfg pl w = reply pl (link_message cfg) w"

definition target_hint :: "config \<Rightarrow> world \<Rightarrow> string" where
  "target_hint cfg w =
     (if isfile (files w) (csv_target cfg) then csv_target cfg
      else ''folder: '' @ csv_target cfg)"

text \<open>The \<^verbatim>\<open>finally\<close> blocks: every removal is tried, failures are swallowed.\<close>

definition remove_all :: "path list \<Rightarrow> world \<Rightarrow> world" where
  "remove_all ts w = w\<lparr>files := fold remove_quiet ts (files w)\<rparr>"

text \<open>\<^verbatim>\<open>with open(p, "rb") as f: reply_document(document=f, ...)\<close>.\<close>

definition send_document ::
  "platform \<Rightarrow> path \<Rightarrow> string \<Rightarrow> string \<Rightarrow> world \<Rightarrow> error + world" where
  "send_document pl p name caption w =
     (case map_of (files w) p of
        None \<Rightarrow> Inl FileNotFoundError
      | Some Dir \<Rightarrow> Inl IsADirectoryError
      | Some (File c) \<Rightarrow> reply pl (ReplyDocument c name caption) w)"

text \<open>
  A handler returns the exception that left it, if any, and the world it leaves behind.
\<close>

definition send_zip :: "config \<Rightarrow> platform \<Rightarrow> world \<Rightarrow> error option \<times> world" where
  "send_zip cfg pl w =
     (case send_link cfg pl w of
        Inl e \<Rightarrow> (Some e, w)
      | Inr w1 \<Rightarrow>
          (case prepare_files cfg pl w1 of
             Inl (e, w2) \<Rightarrow> (Some e, w2)
           | Inr (pairs, temps, w2) \<Rightarrow>
               if pairs = [] then
                 (case reply pl (ReplyText (no_files_text (target_hint cfg w2))) w2 of
                    Inl e \<Rightarrow> (Some e, w2)
                  | Inr w3 \<Rightarrow> (None, w3))
               else
                 (case zip_pairs pl pairs (files w2) of
                    Inl (e, fs3) \<Rightarrow> (Some e, w2\<lparr>files := fs3\<rparr>)
                  | Inr (zp, fs3) \<Rightarrow>
                      (let w3 = w2\<lparr>files := fs3\<rparr> in
                       case send_document pl zp ''test_portfolios.zip'' zip_caption w3 of
                         Inl e \<Rightarrow> (Some e, remove_all (zp # temps) w3)
                       | Inr w4 \<Rightarrow> (None, remove_all (zp # temps) w4)))))"

fun send_each :: "platform \<Rightarrow> entry list \<Rightarrow> world \<Rightarrow> error option \<times> world" where
  "send_each pl [] w = (None, w)"
| "send_each pl ((p, name) # pairs) w =
     (case send_document pl p name (file_caption name) w of
        Inl e \<Rightarrow> (Some e, w)
      | Inr w' \<Rightarrow> send_each pl pairs w')"

definition send_files :: "config \<Rightarrow> platform \<Rightarrow> world \<Rightarrow> error option \<times> world" where
  "send_files cfg pl w =
     (case send_link cfg pl w of
        Inl e \<Rightarrow> (Some e, w)
      | Inr w1 \<Rightarrow>
          (case prepare_files cfg pl w1 of
             Inl (e, w2) \<Rightarrow> (Some e, w2)
           | Inr (pairs, temps, w2) \<Rightarrow>
               if pairs = [] then
                 (case reply pl (ReplyText (no_files_text (target_hint cfg w2))) w2 of
                    Inl e \<Rightarrow> (Some e, w2)
                  | Inr w3 \<Rightarrow> (None, w3))
               else
                 (case send_each pl pairs w2 of
                    (r, w3) \<Rightarrow> (r, remove_all temps w3))))"

definition start_cmd :: "config \<Rightarrow> platform \<Rightarrow> world \<Rightarrow> error option \<times> world" where
  "start_cmd cfg pl w = send_zip cfg pl w"

definition on_text :: "config \<Rightarrow> platform \<Rightarrow> string \<Rightarrow> world \<Rightarrow> error option \<times> world" where
  "on_text cfg pl text w =
     (if lower (strip text) = ''hi'' then send_zip cfg pl w
      else (case reply pl (ReplyText help_text) w of
              Inl e \<Rightarrow> (Some e, w)
            | Inr w' \<Rightarrow> (None, w')))"

subsection \<open>Auxiliary notions for the proofs\<close>

text \<open>
  What a conversion writes, read off the file system it starts from: the scratch path
  and the text, or \<open>None\<close> when \<^verbatim>\<open>convert_excel_to_csv\<close> raises.
\<close>

definition converted :: "platform \<Rightarrow> filesystem \<Rightarrow> path \<Rightarrow> (path \<times> content) option" where
  "converted pl fs p =
     (case map_of fs p of
        Some (File c) \<Rightarrow>
          (case excel_to_csv pl c of
             Some df \<Rightarrow> if isdir fs (out_path pl p) then None else Some (out_path pl p, df)
           | None \<Rightarrow> None)
      | _ \<Rightarrow> None)"

text \<open>
  The entry the specification gives to one path: a delimited-text file is passed
  through, a workbook is replaced by its conversion or, when that fails, passed through,
  anything else gives no entry.
\<close>

definition entry_for :: "platform \<Rightarrow> filesystem \<Rightarrow> path \<Rightarrow> entry option" where
  "entry_for pl fs p =
     (if is_csv p then Some (p, path_name p)
      else if is_excel p then
        (case converted pl fs p of
           Some (cp, df) \<Rightarrow> Some (cp, path_stem p @ ''_converted.csv'')
         | None \<Rightarrow> Some (p, path_name p))
      else None)"

text \<open>
  The exception with which the round for one path leaves, if any: the one \<^verbatim>\<open>print\<close>
  raises on the warning of a failed conversion.
\<close>

definition warning_fault :: "platform \<Rightarrow> filesystem \<Rightarrow> path \<Rightarrow> error option" where
  "warning_fault pl fs p =
     (if is_excel p then
        (case convert_excel_to_csv pl p fs of
           Inl e \<Rightarrow> print_fault pl (WarnExcelFailed p e)
         | Inr r \<Rightarrow> None)
      else None)"

text \<open>
  The exception that leaves a run over the paths, if any: that of the first path whose
  warning raises; and the paths the run gets through before it.
\<close>

definition first_fault :: "platform \<Rightarrow> filesystem \<Rightarrow> path list \<Rightarrow> error option" where
  "first_fault pl fs src =
     (case dropWhile (\<lambda>p. warning_fault pl fs p = None) src of
        [] \<Rightarrow> None
      | q # rest \<Rightarrow> warning_fault pl fs q)"

definition quiet_prefix :: "platform \<Rightarrow> filesystem \<Rightarrow> path list \<Rightarrow> path list" where
  "quiet_prefix pl fs src = takeWhile (\<lambda>p. warning_fault pl fs p = None) src"

definition temp_for :: "platform \<Rightarrow> filesystem \<Rightarrow> path \<Rightarrow> path option" where
  "temp_for pl fs p =
     (if is_excel p then map_option fst (converted pl fs p) else None)"

definition write_for :: "platform \<Rightarrow> filesystem \<Rightarrow> path \<Rightarrow> (path \<times> node) option" where
  "write_for pl fs p =
     (if is_excel p then map_option (\<lambda>(cp, df). (cp, File df)) (converted pl fs p) else None)"

text \<open>
  Two file systems give the normaliser the same inputs when they hold the same
  workbooks and the same directories.
\<close>

definition same_inputs :: "filesystem \<Rightarrow> filesystem \<Rightarrow> bool" where
  "same_inputs fs fs' \<longleftrightarrow>
     (\<forall>q. is_excel q \<longrightarrow> map_of fs' q = map_of fs q) \<and> (\<forall>q. isdir fs' q = isdir fs q)"


subsection \<open>Concrete scenes\<close>

definition demo_platform :: platform where
  "demo_platform =
     \<lparr>tempdir = ''/tmp'',
      excel_to_csv = (\<lambda>c. if c = Raw ''corrupt'' then None else Some c),
      deliver = (\<lambda>m. True),
      print_fault = (\<lambda>l. None),
      zip_fault = (\<lambda>op. None),
      archive_seen = (\<lambda>zf. Raw [])\<rparr>"

text \<open>The same platform with a console whose stream is broken.\<close>

definition broken_console_platform :: platform where
  "broken_console_platform = demo_platform\<lparr>print_fault := (\<lambda>l. Some OSError)\<rparr>"


definition corrupt_files :: filesystem where
  "corrupt_files =
     [(''d/bad.xlsx'', File (Raw ''corrupt'')), (''d/ok.csv'', File (Raw ''a,b''))]"

definition demo_config :: "path \<Rightarrow> config" where
  "demo_config target = \<lparr>bot_token = ''token'', stoxeye_url = ''https://x.example'', csv_target = target\<rparr>"

definition demo_world :: "filesystem \<Rightarrow> world" where
  "demo_world fs = \<lparr>files = fs, console = [], outbox = []\<rparr>"

definition demo_files :: filesystem where
  "demo_files =
     [(''d'', Dir), (''d/a.csv'', File (Raw ''x,y'')), (''d/b.xlsx'', File (Raw ''sheet'')),
      (''d/n.txt'', File (Raw ''notes''))]"


definition twin_files :: filesystem where
  "twin_files = [(''d'', Dir), (''d/s.xlsx'', File (Raw ''new'')), (''d/s.xls'', File (Raw ''old''))]"

definition leak_files :: filesystem where
  "leak_files =
     [(''d'', Dir), (''d/b.xlsx'', File (Raw ''sheet'')), (''/tmp/test_portfolios.zip'', Dir)]"

definition scratch_as_source :: filesystem where
  "scratch_as_source = [(''/tmp'', Dir), (''/tmp/a.xlsx'', File (Raw ''sheet''))]"

definition mixed_case_files :: filesystem where
  "mixed_case_files =
     [(''d'', Dir), (''d/a.XLSX'', File (Raw ''one'')), (''d/b.Csv'', File (Raw ''two'')),
      (''d/c.XLS'', File (Raw ''three'')), (''d/good.csv'', File (Raw ''four''))]"

section \<open>Properties\<close>

subsection \<open>Suffixes and scratch paths\<close>

lemma endswith_iff: "endswith s suf \<longleftrightarrow> (\<exists>pre. s = pre @ suf)"
proof
  assume h: "endswith s suf"
  then have "s = take (length s - length suf) s @ suf"
    unfolding endswith_def by (metis append_take_drop_id)
  then show "\<exists>pre. s = pre @ suf" ..
next
  assume "\<exists>pre. s = pre @ suf"
  then show "endswith s suf" unfolding endswith_def by auto
qed

lemma endswith_last: "endswith s suf \<Longrightarrow> suf \<noteq> [] \<Longrightarrow> last s = last suf"
  by (auto simp: endswith_iff)

lemma lower_append: "lower (a @ b) = lower a @ lower b"
  by (simp add: lower_def)

lemma lower_dot_csv: "lower ''.csv'' = ''.csv''"
  by (simp add: lower_def lower_char_def)

text \<open>A workbook path is never taken for delimited text: the last letters differ.\<close>

lemma excel_not_csv: "is_excel p \<Longrightarrow> \<not> is_csv p"
proof
  assume e: "is_excel p" and c: "is_csv p"
  from c have "endswith (lower p) ''.csv''" by (simp add: is_csv_def)
  from endswith_last [OF this] have v: "last (lower p) = CHR ''v''" by simp
  from e have "endswith (lower p) ''.xlsx'' \<or> endswith (lower p) ''.xls''"
    by (simp add: is_excel_def)
  then have "last (lower p) = CHR ''x'' \<or> last (lower p) = CHR ''s''"
  proof
    assume "endswith (lower p) ''.xlsx''"
    from endswith_last [OF this] show ?thesis by simp
  next
    assume "endswith (lower p) ''.xls''"
    from endswith_last [OF this] show ?thesis by simp
  qed
  with v show False by auto
qed

lemma join_ends: "\<exists>pre. join a b = pre @ b"
  unfolding join_def by (auto intro: exI[of _ "[]"])

text \<open>Every conversion writes to a path ending in \<^verbatim>\<open>.csv\<close>, so never over a workbook.\<close>

lemma out_path_is_csv: "is_csv (out_path pl p)"
proof -
  obtain pre where "out_path pl p = pre @ path_stem p @ ''.csv''"
    unfolding out_path_def using join_ends by blast
  then have "lower (out_path pl p) = (lower pre @ lower (path_stem p)) @ ''.csv''"
    by (simp add: lower_append lower_dot_csv)
  then show ?thesis unfolding is_csv_def endswith_iff by blast
qed

lemma out_path_not_excel: "\<not> is_excel (out_path pl p)"
  using excel_not_csv out_path_is_csv by blast

subsection \<open>The file system\<close>

lemma map_of_write_file: "map_of (write_file p c fs) = (map_of fs)(p \<mapsto> File c)"
  by (simp add: write_file_def update_conv')

lemma isdir_write_file: "isdir (write_file p c fs) q = (q \<noteq> p \<and> isdir fs q)"
  by (simp add: isdir_def map_of_write_file)

lemma map_of_delete: "map_of (AList.delete p fs) = (map_of fs)(p := None)"
  by (simp add: delete_conv')

lemma isfile_remove_quiet: "isfile (remove_quiet p fs) q \<longleftrightarrow> isfile fs q \<and> q \<noteq> p"
  by (auto simp: remove_quiet_def isfile_def map_of_delete)

lemma isfile_fold_remove_quiet:
  "isfile (fold remove_quiet ts fs) q \<longleftrightarrow> isfile fs q \<and> q \<notin> set ts"
  by (induction ts arbitrary: fs) (auto simp: isfile_remove_quiet)

lemma isfile_remove_all: "isfile (files (remove_all ts w)) q \<longleftrightarrow> isfile (files w) q \<and> q \<notin> set ts"
  by (simp add: remove_all_def isfile_fold_remove_quiet)

lemma files_demo_world: "files (demo_world fs) = fs"
  by (simp add: demo_world_def)

subsection \<open>Conversion, and one round of the loop\<close>

lemma convert_Inr_iff:
  "convert_excel_to_csv pl p fs = Inr (cp, fs') \<longleftrightarrow>
     (\<exists>df. converted pl fs p = Some (cp, df) \<and> fs' = write_file cp df fs)"
  by (auto simp: convert_excel_to_csv_def converted_def
           split: option.splits node.splits if_splits)

lemma convert_Inl_iff:
  "(\<exists>e. convert_excel_to_csv pl p fs = Inl e) \<longleftrightarrow> converted pl fs p = None"
  by (auto simp: convert_excel_to_csv_def converted_def
           split: option.splits node.splits if_splits)

lemma converted_SomeD:
  assumes "converted pl fs p = Some (cp, df)"
  shows "cp = out_path pl p" and "\<not> isdir fs cp"
    and "\<exists>c. map_of fs p = Some (File c) \<and> excel_to_csv pl c = Some df"
  using assms
  by (auto simp: converted_def split: option.splits node.splits if_splits)

lemma convert_Inl_cases:
  "convert_excel_to_csv pl p fs = Inl e \<Longrightarrow> converted pl fs p = None"
  using convert_Inl_iff by blast

lemma prepare_step_excel:
  assumes "is_excel p"
  shows "prepare_step pl (pairs, temps, w) p =
     (case convert_excel_to_csv pl p (files w) of
        Inr (cp, fs') \<Rightarrow>
          Inr (pairs @ [(cp, path_stem p @ ''_converted.csv'')], temps @ [cp],
               w\<lparr>files := fs'\<rparr>)
      | Inl e \<Rightarrow>
          (case print_fault pl (WarnExcelFailed p e) of
             Some x \<Rightarrow> Inl (x, w)
           | None \<Rightarrow>
               Inr (pairs @ [(p, path_name p)], temps,
                    w\<lparr>console := console w @ [WarnExcelFailed p e]\<rparr>)))"
  using assms excel_not_csv [of p] by (simp add: prepare_step_def)

lemma same_inputs_refl: "same_inputs fs fs"
  by (simp add: same_inputs_def)

lemma same_inputs_converted:
  assumes "same_inputs fs0 fs" and "is_excel p"
  shows "converted pl fs p = converted pl fs0 p"
proof -
  from assms have "map_of fs p = map_of fs0 p"
    and "isdir fs (out_path pl p) = isdir fs0 (out_path pl p)"
    by (simp_all add: same_inputs_def)
  then show ?thesis by (simp add: converted_def split: option.splits node.splits)
qed

lemma same_inputs_write:
  assumes "same_inputs fs0 fs" and "converted pl fs0 p = Some (cp, df)"
  shows "same_inputs fs0 (write_file cp df fs)"
proof -
  from converted_SomeD [OF assms(2)] have cp: "cp = out_path pl p" and nd: "\<not> isdir fs0 cp"
    by simp_all
  have ne: "\<And>q. is_excel q \<Longrightarrow> q \<noteq> cp" using cp out_path_not_excel by blast
  from assms(1) nd show ?thesis
    unfolding same_inputs_def by (auto simp: map_of_write_file isdir_write_file dest: ne)
qed

lemma same_inputs_convert_Inl:
  assumes "same_inputs fs0 fs" and "is_excel p"
  shows "convert_excel_to_csv pl p fs = Inl e \<longleftrightarrow> convert_excel_to_csv pl p fs0 = Inl e"
proof -
  from assms have "map_of fs p = map_of fs0 p"
    and "isdir fs (out_path pl p) = isdir fs0 (out_path pl p)"
    by (simp_all add: same_inputs_def)
  then show ?thesis
    by (simp add: convert_excel_to_csv_def split: option.splits node.splits)
qed

lemma first_fault_Nil: "first_fault pl fs [] = None"
  by (simp add: first_fault_def)

lemma first_fault_Cons:
  "first_fault pl fs (p # src) =
     (case warning_fault pl fs p of None \<Rightarrow> first_fault pl fs src | Some x \<Rightarrow> Some x)"
  by (auto simp: first_fault_def split: option.splits)

lemma first_fault_None_iff:
  "first_fault pl fs src = None \<longleftrightarrow> (\<forall>p \<in> set src. warning_fault pl fs p = None)"
  by (induction src) (auto simp: first_fault_Nil first_fault_Cons split: option.splits)

lemma first_fault_SomeD:
  "first_fault pl fs src = Some x \<Longrightarrow> \<exists>p \<in> set src. warning_fault pl fs p = Some x"
  by (induction src) (auto simp: first_fault_Nil first_fault_Cons split: option.splits)

lemma quiet_prefix_Cons:
  "quiet_prefix pl fs (p # src) =
     (if warning_fault pl fs p = None then p # quiet_prefix pl fs src else [])"
  by (simp add: quiet_prefix_def)

text \<open>
  What one round does, with the decisions read off a file system with the same inputs:
  it returns exactly when no warning raises, and a round that raises changes nothing.
\<close>

lemma prepare_step_spec:
  assumes "same_inputs fs0 (files w)"
  shows "(case prepare_step pl (pairs, temps, w) p of
            Inr (ps, ts, w') \<Rightarrow>
              warning_fault pl fs0 p = None
              \<and> ps = pairs @ (case entry_for pl fs0 p of None \<Rightarrow> [] | Some e \<Rightarrow> [e])
              \<and> ts = temps @ (case temp_for pl fs0 p of None \<Rightarrow> [] | Some t \<Rightarrow> [t])
              \<and> same_inputs fs0 (files w')
              \<and> map_of (files w') =
                  (case write_for pl fs0 p of None \<Rightarrow> map_of (files w)
                   | Some (cp, n) \<Rightarrow> (map_of (files w))(cp \<mapsto> n))
          | Inl (x, w') \<Rightarrow> warning_fault pl fs0 p = Some x \<and> w' = w)"
proof (cases "is_excel p")
  case False
  with assms show ?thesis
    by (auto simp: prepare_step_def entry_for_def temp_for_def write_for_def warning_fault_def)
next
  case True
  then have nc: "\<not> is_csv p" by (rule excel_not_csv)
  have eq: "converted pl (files w) p = converted pl fs0 p"
    using assms True by (rule same_inputs_converted)
  show ?thesis
  proof (cases "convert_excel_to_csv pl p (files w)")
    case (Inl e)
    then have e0: "convert_excel_to_csv pl p fs0 = Inl e"
      using same_inputs_convert_Inl [OF assms True] by simp
    from Inl have "converted pl (files w) p = None" by (rule convert_Inl_cases)
    with eq have none: "converted pl fs0 p = None" by simp
    show ?thesis
    proof (cases "print_fault pl (WarnExcelFailed p e)")
      case None
      with Inl e0 none True nc assms show ?thesis
        by (simp add: prepare_step_excel entry_for_def temp_for_def write_for_def
                      warning_fault_def)
    next
      case (Some x)
      with Inl e0 True show ?thesis
        by (simp add: prepare_step_excel warning_fault_def)
    qed
  next
    case (Inr r)
    obtain cp fs' where r: "r = (cp, fs')" by (cases r)
    with Inr obtain df where df: "converted pl (files w) p = Some (cp, df)"
      and fs': "fs' = write_file cp df (files w)"
      by (auto simp: convert_Inr_iff)
    from df eq have df0: "converted pl fs0 p = Some (cp, df)" by simp
    then have c0: "convert_excel_to_csv pl p fs0 = Inr (cp, write_file cp df fs0)"
      by (simp add: convert_Inr_iff)
    from same_inputs_write [OF assms df0]
    have "same_inputs fs0 (write_file cp df (files w))" .
    with Inr r fs' df0 c0 True nc show ?thesis
      by (simp add: prepare_step_excel entry_for_def temp_for_def write_for_def
                    warning_fault_def map_of_write_file)
  qed
qed

text \<open>
  The whole loop. It returns exactly when no warning raises; then the entries and the
  temporary files are those of the paths in order, and the file system is the initial
  one with the conversions written over it in order. Otherwise the exception of the
  first warning that raises leaves it, with the conversions before that path written.
\<close>

lemma prepare_loop_spec:
  assumes "same_inputs fs0 (files w)"
  shows "(case prepare_loop pl src (pairs, temps, w) of
            Inr (ps, ts, w') \<Rightarrow>
              first_fault pl fs0 src = None
              \<and> ps = pairs @ List.map_filter (entry_for pl fs0) src
              \<and> ts = temps @ List.map_filter (temp_for pl fs0) src
              \<and> same_inputs fs0 (files w')
              \<and> map_of (files w') =
                  fold (\<lambda>(cp, n) m. m(cp \<mapsto> n)) (List.map_filter (write_for pl fs0) src)
                    (map_of (files w))
          | Inl (x, w') \<Rightarrow>
              first_fault pl fs0 src = Some x
              \<and> same_inputs fs0 (files w')
              \<and> map_of (files w') =
                  fold (\<lambda>(cp, n) m. m(cp \<mapsto> n))
                    (List.map_filter (write_for pl fs0) (quiet_prefix pl fs0 src))
                    (map_of (files w)))"
  using assms
proof (induction src arbitrary: pairs temps w)
  case Nil
  then show ?case by (simp add: map_filter_simps first_fault_Nil)
next
  case (Cons p src)
  note step = prepare_step_spec [OF Cons.prems, where pl = pl and pairs = pairs and temps = temps and p = p]
  show ?case
  proof (cases "prepare_step pl (pairs, temps, w) p")
    case (Inl a)
    obtain x w1 where a: "a = (x, w1)" by (cases a)
    with Inl step have "warning_fault pl fs0 p = Some x" and "w1 = w" by simp_all
    with Inl a Cons.prems show ?thesis
      by (simp add: first_fault_Cons quiet_prefix_Cons map_filter_simps)
  next
    case (Inr st)
    obtain ps1 ts1 w1 where st: "st = (ps1, ts1, w1)" by (cases st)
    from Inr st step have
      q: "warning_fault pl fs0 p = None"
      and ps1: "ps1 = pairs @ (case entry_for pl fs0 p of None \<Rightarrow> [] | Some e \<Rightarrow> [e])"
      and ts1: "ts1 = temps @ (case temp_for pl fs0 p of None \<Rightarrow> [] | Some t \<Rightarrow> [t])"
      and same: "same_inputs fs0 (files w1)"
      and fs1: "map_of (files w1) =
                  (case write_for pl fs0 p of None \<Rightarrow> map_of (files w)
                   | Some (cp, n) \<Rightarrow> (map_of (files w))(cp \<mapsto> n))"
      by simp_all
    note ih = Cons.IH [OF same, where pairs = ps1 and temps = ts1]
    have loop: "prepare_loop pl (p # src) (pairs, temps, w) = prepare_loop pl src (ps1, ts1, w1)"
      using Inr st by simp
    show ?thesis
    proof (cases "prepare_loop pl src (ps1, ts1, w1)")
      case (Inl b)
      obtain x w2 where b: "b = (x, w2)" by (cases b)
      from Inl b ih have
        ff: "first_fault pl fs0 src = Some x"
        and same2: "same_inputs fs0 (files w2)"
        and fs2: "map_of (files w2) =
                  fold (\<lambda>(cp, n) m. m(cp \<mapsto> n))
                    (List.map_filter (write_for pl fs0) (quiet_prefix pl fs0 src))
                    (map_of (files w1))"
        by simp_all
      have c: "map_of (files w2) =
                  fold (\<lambda>(cp, n) m. m(cp \<mapsto> n))
                    (List.map_filter (write_for pl fs0) (quiet_prefix pl fs0 (p # src)))
                    (map_of (files w))"
        using fs1 fs2 q
        by (simp add: quiet_prefix_Cons map_filter_simps split: option.splits prod.splits)
      from ff q same2 c show ?thesis
        unfolding loop Inl b by (simp add: first_fault_Cons)
    next
      case (Inr fin)
      obtain ps2 ts2 w2 where fin: "fin = (ps2, ts2, w2)" by (cases fin)
      from Inr fin ih have
        q2: "first_fault pl fs0 src = None"
        and ps2: "ps2 = ps1 @ List.map_filter (entry_for pl fs0) src"
        and ts2: "ts2 = ts1 @ List.map_filter (temp_for pl fs0) src"
        and same2: "same_inputs fs0 (files w2)"
        and fs2: "map_of (files w2) =
                  fold (\<lambda>(cp, n) m. m(cp \<mapsto> n)) (List.map_filter (write_for pl fs0) src)
                    (map_of (files w1))"
        by simp_all
      have a: "ps2 = pairs @ List.map_filter (entry_for pl fs0) (p # src)"
        using ps1 ps2 by (simp add: map_filter_simps split: option.splits)
      have b: "ts2 = temps @ List.map_filter (temp_for pl fs0) (p # src)"
        using ts1 ts2 by (simp add: map_filter_simps split: option.splits)
      have c: "map_of (files w2) =
                  fold (\<lambda>(cp, n) m. m(cp \<mapsto> n)) (List.map_filter (write_for pl fs0) (p # src))
                    (map_of (files w))"
        using fs1 fs2 by (simp add: map_filter_simps split: option.splits prod.splits)
      from q q2 a b c same2 show ?thesis
        unfolding loop Inr fin by (simp add: first_fault_Cons)
    qed
  qed
qed

text \<open>The run from empty locals, on a file system with the same inputs as a given one.\<close>

lemma prepare_spec:
  assumes "same_inputs fs0 (files w)"
  shows "(case prepare pl src w of
      Inr (ps, ts, w') \<Rightarrow>
        first_fault pl fs0 src = None
        \<and> ps = List.map_filter (entry_for pl fs0) src
        \<and> ts = List.map_filter (temp_for pl fs0) src
        \<and> same_inputs fs0 (files w')
        \<and> map_of (files w') =
            fold (\<lambda>(cp, n) m. m(cp \<mapsto> n)) (List.map_filter (write_for pl fs0) src)
              (map_of (files w))
    | Inl (x, w') \<Rightarrow>
        first_fault pl fs0 src = Some x
        \<and> same_inputs fs0 (files w')
        \<and> map_of (files w') =
            fold (\<lambda>(cp, n) m. m(cp \<mapsto> n))
              (List.map_filter (write_for pl fs0) (quiet_prefix pl fs0 src))
              (map_of (files w)))"
  using prepare_loop_spec [OF assms, where pl = pl and src = src and pairs = "[]" and temps = "[]"]
  by (simp add: prepare_def split: sum.splits prod.splits)

lemma prepare_InrD:
  assumes "same_inputs fs0 (files w)" and "prepare pl src w = Inr (ps, ts, w')"
  shows "first_fault pl fs0 src = None"
    and "ps = List.map_filter (entry_for pl fs0) src"
    and "ts = List.map_filter (temp_for pl fs0) src"
    and "same_inputs fs0 (files w')"
    and "map_of (files w') =
            fold (\<lambda>(cp, n) m. m(cp \<mapsto> n)) (List.map_filter (write_for pl fs0) src)
              (map_of (files w))"
  using prepare_spec [OF assms(1), where pl = pl and src = src] assms(2) by simp_all

lemma prepare_InlD:
  assumes "same_inputs fs0 (files w)" and "prepare pl src w = Inl (x, w')"
  shows "first_fault pl fs0 src = Some x"
    and "same_inputs fs0 (files w')"
    and "map_of (files w') =
            fold (\<lambda>(cp, n) m. m(cp \<mapsto> n))
              (List.map_filter (write_for pl fs0) (quiet_prefix pl fs0 src))
              (map_of (files w))"
  using prepare_spec [OF assms(1), where pl = pl and src = src] assms(2) by simp_all

lemma fold_upd_map_add:
  "fold (\<lambda>(k, v) m. m(k \<mapsto> v)) ws m = m ++ map_of (rev ws)"
proof (induction ws arbitrary: m)
  case Nil
  then show ?case by simp
next
  case (Cons a ws)
  obtain k v where a: "a = (k, v)" by (cases a)
  have "fold (\<lambda>(k, v) m. m(k \<mapsto> v)) (a # ws) m
          = fold (\<lambda>(k, v) m. m(k \<mapsto> v)) ws (m(k \<mapsto> v))"
    by (simp only: a fold_simps o_apply prod.case)
  also have "\<dots> = m(k \<mapsto> v) ++ map_of (rev ws)"
    by (rule Cons.IH)
  also have "\<dots> = m ++ map_of (rev (a # ws))"
    by (rule ext) (simp add: a map_add_def split: option.splits)
  finally show ?case .
qed

lemma map_add_twice: "(m ++ n) ++ n = m ++ (n :: 'a \<rightharpoonup> 'b)"
  by (rule ext) (simp add: map_add_def split: option.splits)

lemma fold_upd_twice:
  assumes "m1 = fold (\<lambda>(k, v) m. m(k \<mapsto> v)) ws m0"
    and "m2 = fold (\<lambda>(k, v) m. m(k \<mapsto> v)) ws m1"
  shows "m2 = m1"
  using assms by (simp add: fold_upd_map_add map_add_twice)

lemma map_filter_Nil_iff: "List.map_filter f xs = [] \<longleftrightarrow> (\<forall>x \<in> set xs. f x = None)"
  by (induction xs) (auto simp: map_filter_simps split: option.splits)

lemma temp_has_entry: "entry_for pl fs p = None \<Longrightarrow> temp_for pl fs p = None"
  by (auto simp: entry_for_def temp_for_def split: if_splits option.splits)

lemma prepare_no_pairs_no_temps:
  assumes "prepare pl src w = Inr ([], temps, w')"
  shows "temps = []"
proof -
  from prepare_InrD(2,3) [OF same_inputs_refl assms]
  have "List.map_filter (entry_for pl (files w)) src = []"
    and t: "temps = List.map_filter (temp_for pl (files w)) src"
    by simp_all
  then have "\<forall>p \<in> set src. temp_for pl (files w) p = None"
    by (simp add: map_filter_Nil_iff temp_has_entry)
  with t show ?thesis by (simp add: map_filter_Nil_iff)
qed

lemma prepare_files_no_pairs_no_temps:
  assumes "prepare_files cfg pl w = Inr ([], temps, w')"
  shows "temps = []"
  using assms
  by (auto simp: prepare_files_def split: sum.splits dest: prepare_no_pairs_no_temps)

subsection \<open>The resolver and the packager\<close>

text \<open>
  What the directory scan returns: the listed names that do not start with a dot and end,
  letter for letter, in one of the four patterns' suffixes; distinct, sorted by lower-cased
  path.
\<close>

lemma list_from_dir_result:
  assumes "list_from_dir d fs = Inr (ps, fs')"
  shows "set ps = {join d n | n. n \<in> set (listdir fs' d) \<and> \<not> startswith n ''.''
                     \<and> (\<exists>suf \<in> set patterns. endswith n suf)}
         \<and> distinct ps \<and> sorted (map lower ps)"
proof -
  from assms have ps: "ps = sort_key lower (remdups (concat (map (glob_star fs' d) patterns)))"
    by (auto simp: list_from_dir_def split: sum.splits)
  have "set ps = {join d n | n. n \<in> set (listdir fs' d) \<and> \<not> startswith n ''.''
                     \<and> (\<exists>suf \<in> set patterns. endswith n suf)}"
    unfolding ps by (auto simp: glob_star_def; blast)
  moreover have "distinct ps" by (simp add: ps)
  moreover have "sorted (map lower ps)" by (simp add: ps)
  ultimately show ?thesis by blast
qed



lemma strip_empty: "strip [] = []"
  by (simp add: strip_def strip_chars_def)

subsection \<open>Clean-up in the handlers\<close>

text \<open>
  Once \<^verbatim>\<open>prepare_files\<close> has returned, the individual-files handler removes every
  recorded temporary file, on each way out.
\<close>

lemma send_files_removes_temps:
  assumes "send_link cfg pl w = Inr w1"
    and "prepare_files cfg pl w1 = Inr (pairs, temps, w2)"
  shows "\<forall>t \<in> set temps. \<not> isfile (files (snd (send_files cfg pl w))) t"
proof (cases "pairs = []")
  case True
  with assms(2) have "temps = []" using prepare_files_no_pairs_no_temps by blast
  then show ?thesis by simp
next
  case False
  with assms show ?thesis
    by (simp add: send_files_def isfile_remove_all split: prod.splits)
qed

text \<open>The archive handler does so once the archive has been built.\<close>

lemma send_zip_removes_temps_once_packed:
  assumes "send_link cfg pl w = Inr w1"
    and "prepare_files cfg pl w1 = Inr (pairs, temps, w2)"
    and "pairs \<noteq> []"
    and "zip_pairs pl pairs (files w2) = Inr (zp, fs3)"
  shows "\<forall>t \<in> set (zp # temps). \<not> isfile (files (snd (send_zip cfg pl w))) t"
  using assms
  by (simp add: send_zip_def Let_def isfile_remove_all split: sum.splits)

subsection \<open>A scene with a corrupt workbook\<close>

lemma is_excel_bad: "is_excel ''d/bad.xlsx''"
  by code_simp

lemma path_name_bad: "path_name ''d/bad.xlsx'' = ''bad.xlsx''"
  by code_simp

lemma is_csv_ok: "is_csv ''d/ok.csv''"
  by code_simp

lemma path_name_ok: "path_name ''d/ok.csv'' = ''ok.csv''"
  by code_simp

section \<open>The claims\<close>

text \<open>
  Claim C1. Every temporary file created during a request is deleted before the handler
  returns, also when building the archive raises after conversions have written files.
  The archive handler builds the archive before it enters the block whose \<^verbatim>\<open>finally\<close>
  removes the files: with a convertible workbook in the source directory and a directory
  sitting at the archive's path, the handler leaves with the exception and the converted
  file \<^verbatim>\<open>/tmp/b.csv\<close>, recorded in temps, is still there.
\<close>

theorem send_zip_leaves_temp_when_packing_raises:
  "prepare_files (demo_config ''d'') demo_platform (demo_world leak_files) =
     Inr ([(''/tmp/b.csv'', ''b_converted.csv'')], [''/tmp/b.csv''],
          demo_world (leak_files @ [(''/tmp/b.csv'', File (Raw ''sheet''))]))
   \<and> zip_pairs demo_platform [(''/tmp/b.csv'', ''b_converted.csv'')]
        (leak_files @ [(''/tmp/b.csv'', File (Raw ''sheet''))]) =
        Inl (IsADirectoryError, leak_files @ [(''/tmp/b.csv'', File (Raw ''sheet''))])
   \<and> fst (send_zip (demo_config ''d'') demo_platform (demo_world leak_files)) =
        Some IsADirectoryError
   \<and> isfile (files (snd (send_zip (demo_config ''d'') demo_platform (demo_world leak_files))))
        ''/tmp/b.csv''"
  by code_simp

text \<open>
  Claim C2. The directory scan returns the entries whose extension is, in any casing, one
  of \<^verbatim>\<open>.csv\<close>, \<^verbatim>\<open>.xlsx\<close>, \<^verbatim>\<open>.xls\<close>. With case-sensitive matching the four patterns find
  \<^verbatim>\<open>good.csv\<close> only: \<^verbatim>\<open>a.XLSX\<close>, \<^verbatim>\<open>b.Csv\<close> and \<^verbatim>\<open>c.XLS\<close>, which the normaliser would
  accept, are not returned.
\<close>

theorem list_from_dir_skips_other_casings:
  "list_from_dir ''d'' mixed_case_files = Inr ([''d/good.csv''], mixed_case_files)
   \<and> is_excel ''d/a.XLSX'' \<and> is_csv ''d/b.Csv'' \<and> is_excel ''d/c.XLS''"
  by code_simp

text \<open>
  Claim C3, amended. When the conversion of a workbook path raises, whatever the error,
  and the warning can be printed, the loop goes on with the remaining paths from a state
  in which the original path stands as the entry under its own file name, no temporary
  file has been recorded, the file system is unchanged and the warning is on the console.
\<close>

theorem conversion_failure_falls_back:
  assumes "is_excel p"
    and "convert_excel_to_csv pl p (files w) = Inl e"
    and "print_fault pl (WarnExcelFailed p e) = None"
  shows "prepare_loop pl (p # rest) (pairs, temps, w) =
         prepare_loop pl rest
           (pairs @ [(p, path_name p)], temps,
            w\<lparr>console := console w @ [WarnExcelFailed p e]\<rparr>)"
  using assms by (simp add: prepare_step_excel)

theorem conversion_failure_falls_back_witness:
  "is_excel ''d/bad.xlsx'' \<and>
   convert_excel_to_csv demo_platform ''d/bad.xlsx'' (files (demo_world corrupt_files))
     = Inl ExcelReadError \<and>
   print_fault demo_platform (WarnExcelFailed ''d/bad.xlsx'' ExcelReadError) = None \<and>
   prepare_loop demo_platform [''d/bad.xlsx'', ''d/ok.csv''] ([], [], demo_world corrupt_files)
     = Inr ([(''d/bad.xlsx'', ''bad.xlsx''), (''d/ok.csv'', ''ok.csv'')], [],
        \<lparr>files = corrupt_files,
         console = [WarnExcelFailed ''d/bad.xlsx'' ExcelReadError], outbox = []\<rparr>)"
proof -
  let ?w = "demo_world corrupt_files"
  have c: "convert_excel_to_csv demo_platform ''d/bad.xlsx'' (files ?w) = Inl ExcelReadError"
    by (simp add: convert_excel_to_csv_def demo_platform_def demo_world_def corrupt_files_def)
  have q: "print_fault demo_platform (WarnExcelFailed ''d/bad.xlsx'' ExcelReadError) = None"
    by (simp add: demo_platform_def)
  from conversion_failure_falls_back [OF is_excel_bad c q, of "[''d/ok.csv'']" "[]" "[]"]
  show ?thesis
    using is_excel_bad c q
    by (simp add: prepare_step_def is_csv_ok path_name_bad path_name_ok demo_world_def)
qed

text \<open>
  The claim as it stands, without the condition on the console, fails: the warning is
  printed inside the exception handler, before the entry is appended, and nothing guards
  it. With a console whose stream is broken, the run over a corrupt workbook and a
  delimited-text file is left by the exception of \<^verbatim>\<open>print\<close>: no entry is returned and the
  second path is never looked at.
\<close>

theorem conversion_failure_aborts_on_console_fault:
  "is_excel ''d/bad.xlsx''
   \<and> convert_excel_to_csv broken_console_platform ''d/bad.xlsx''
        (files (demo_world corrupt_files)) = Inl ExcelReadError
   \<and> prepare broken_console_platform [''d/bad.xlsx'', ''d/ok.csv''] (demo_world corrupt_files) =
        Inl (OSError, demo_world corrupt_files)"
  by code_simp

text \<open>
  Claim C4. A path ending in \<^verbatim>\<open>.csv\<close> (in any casing) gives an entry with that path and its
  file name; a path ending in \<^verbatim>\<open>.xlsx\<close> or \<^verbatim>\<open>.xls\<close> whose conversion succeeds gives an entry
  whose path is the file just written in the temporary directory, holding the converted
  text, named stem plus \<^verbatim>\<open>_converted.csv\<close> and recorded in temps; and the entries (and the
  temporary files) a run returns are those of the input paths, in the order of the paths.
  A run returns unless the warning of a failed conversion could not be printed; then the
  exception of the first such warning leaves it.
\<close>

theorem prepare_maps_each_path:
  "(is_csv p \<longrightarrow>
      prepare_step pl (pairs, temps, w) p = Inr (pairs @ [(p, path_name p)], temps, w))
   \<and> (is_excel p \<and> convert_excel_to_csv pl p (files w) = Inr (cp, fs') \<longrightarrow>
        prepare_step pl (pairs, temps, w) p =
          Inr (pairs @ [(cp, path_stem p @ ''_converted.csv'')], temps @ [cp], w\<lparr>files := fs'\<rparr>)
        \<and> cp = join (tempdir pl) (path_stem p @ ''.csv'')
        \<and> (\<exists>c df. map_of (files w) p = Some (File c) \<and> excel_to_csv pl c = Some df
                  \<and> map_of fs' cp = Some (File df)))
   \<and> (case prepare pl src w of
          Inr (ps, ts, w') \<Rightarrow>
            ps = List.map_filter (entry_for pl (files w)) src
            \<and> ts = List.map_filter (temp_for pl (files w)) src
        | Inl (x, w') \<Rightarrow> first_fault pl (files w) src = Some x)"
proof -
  have a: "is_csv p \<longrightarrow>
      prepare_step pl (pairs, temps, w) p = Inr (pairs @ [(p, path_name p)], temps, w)"
    by (simp add: prepare_step_def)
  have b: "is_excel p \<and> convert_excel_to_csv pl p (files w) = Inr (cp, fs') \<longrightarrow>
        prepare_step pl (pairs, temps, w) p =
          Inr (pairs @ [(cp, path_stem p @ ''_converted.csv'')], temps @ [cp], w\<lparr>files := fs'\<rparr>)
        \<and> cp = join (tempdir pl) (path_stem p @ ''.csv'')
        \<and> (\<exists>c df. map_of (files w) p = Some (File c) \<and> excel_to_csv pl c = Some df
                  \<and> map_of fs' cp = Some (File df))"
  proof
    assume h: "is_excel p \<and> convert_excel_to_csv pl p (files w) = Inr (cp, fs')"
    then obtain df where df: "converted pl (files w) p = Some (cp, df)"
      and fs': "fs' = write_file cp df (files w)"
      by (auto simp: convert_Inr_iff)
    from converted_SomeD [OF df] have "cp = out_path pl p"
      and "\<exists>c. map_of (files w) p = Some (File c) \<and> excel_to_csv pl c = Some df"
      by simp_all
    moreover have "map_of fs' cp = Some (File df)"
      by (simp add: fs' map_of_write_file)
    moreover have "prepare_step pl (pairs, temps, w) p =
          Inr (pairs @ [(cp, path_stem p @ ''_converted.csv'')], temps @ [cp], w\<lparr>files := fs'\<rparr>)"
      using h by (simp add: prepare_step_excel)
    ultimately show "prepare_step pl (pairs, temps, w) p =
          Inr (pairs @ [(cp, path_stem p @ ''_converted.csv'')], temps @ [cp], w\<lparr>files := fs'\<rparr>)
        \<and> cp = join (tempdir pl) (path_stem p @ ''.csv'')
        \<and> (\<exists>c df. map_of (files w) p = Some (File c) \<and> excel_to_csv pl c = Some df
                  \<and> map_of fs' cp = Some (File df))"
      by (auto simp: out_path_def)
  qed
  have c: "(case prepare pl src w of
          Inr (ps, ts, w') \<Rightarrow>
            ps = List.map_filter (entry_for pl (files w)) src
            \<and> ts = List.map_filter (temp_for pl (files w)) src
        | Inl (x, w') \<Rightarrow> first_fault pl (files w) src = Some x)"
    using prepare_spec [OF same_inputs_refl, where pl = pl and src = src and w = w]
    by (simp split: sum.splits prod.splits)
  from a b c show ?thesis by blast
qed

theorem prepare_maps_each_path_witness:
  "is_csv ''d/a.csv''
   \<and> prepare_step demo_platform ([], [], demo_world demo_files) ''d/a.csv'' =
       Inr ([(''d/a.csv'', ''a.csv'')], [], demo_world demo_files)
   \<and> is_excel ''d/b.xlsx''
   \<and> convert_excel_to_csv demo_platform ''d/b.xlsx'' (files (demo_world demo_files)) =
       Inr (''/tmp/b.csv'', demo_files @ [(''/tmp/b.csv'', File (Raw ''sheet''))])
   \<and> prepare_step demo_platform ([], [], demo_world demo_files) ''d/b.xlsx'' =
       Inr ([(''/tmp/b.csv'', ''b_converted.csv'')], [''/tmp/b.csv''],
        demo_world (demo_files @ [(''/tmp/b.csv'', File (Raw ''sheet''))]))
   \<and> prepare demo_platform [''d/a.csv'', ''d/b.xlsx'', ''d/n.txt''] (demo_world demo_files) =
       Inr ([(''d/a.csv'', ''a.csv''), (''/tmp/b.csv'', ''b_converted.csv'')], [''/tmp/b.csv''],
        demo_world (demo_files @ [(''/tmp/b.csv'', File (Raw ''sheet''))]))
   \<and> List.map_filter (entry_for demo_platform (files (demo_world demo_files)))
        [''d/a.csv'', ''d/b.xlsx'', ''d/n.txt''] =
       [(''d/a.csv'', ''a.csv''), (''/tmp/b.csv'', ''b_converted.csv'')]
   \<and> List.map_filter (temp_for demo_platform (files (demo_world demo_files)))
        [''d/a.csv'', ''d/b.xlsx'', ''d/n.txt''] = [''/tmp/b.csv'']"
proof -
  let ?w = "demo_world demo_files"
  let ?fs' = "demo_files @ [(''/tmp/b.csv'', File (Raw ''sheet''))]"
  let ?src = "[''d/a.csv'', ''d/b.xlsx'', ''d/n.txt'']"
  have h1: "is_csv ''d/a.csv''" by code_simp
  have h2: "is_excel ''d/b.xlsx''" by code_simp
  have h3: "convert_excel_to_csv demo_platform ''d/b.xlsx'' (files ?w) = Inr (''/tmp/b.csv'', ?fs')"
    unfolding files_demo_world by code_simp
  have e1: "path_name ''d/a.csv'' = ''a.csv''" by code_simp
  have e2: "path_stem ''d/b.xlsx'' = ''b''" by code_simp
  have e5: "?w\<lparr>files := ?fs'\<rparr> = demo_world ?fs'"
    by (simp add: demo_world_def)
  have run: "prepare demo_platform ?src ?w =
       Inr ([(''d/a.csv'', ''a.csv''), (''/tmp/b.csv'', ''b_converted.csv'')], [''/tmp/b.csv''],
        demo_world ?fs')"
    by code_simp
  note t1 = prepare_maps_each_path [where p = "''d/a.csv''" and pl = demo_platform
      and pairs = "[]" and temps = "[]" and w = ?w and cp = "''/tmp/b.csv''" and fs' = ?fs'
      and src = ?src]
  from t1 h1 have "prepare_step demo_platform ([], [], ?w) ''d/a.csv'' =
       Inr ([] @ [(''d/a.csv'', path_name ''d/a.csv'')], [], ?w)"
    by blast
  then have s1: "prepare_step demo_platform ([], [], ?w) ''d/a.csv'' =
       Inr ([(''d/a.csv'', ''a.csv'')], [], ?w)"
    by (simp only: e1 append_Nil)
  from t1 have "(case prepare demo_platform ?src ?w of
          Inr (ps, ts, w') \<Rightarrow>
            ps = List.map_filter (entry_for demo_platform (files ?w)) ?src
            \<and> ts = List.map_filter (temp_for demo_platform (files ?w)) ?src
        | Inl (x, w') \<Rightarrow> first_fault demo_platform (files ?w) ?src = Some x)"
    by blast
  then have s3: "List.map_filter (entry_for demo_platform (files ?w)) ?src =
         [(''d/a.csv'', ''a.csv''), (''/tmp/b.csv'', ''b_converted.csv'')]
       \<and> List.map_filter (temp_for demo_platform (files ?w)) ?src = [''/tmp/b.csv'']"
    unfolding run by simp
  from prepare_maps_each_path [where p = "''d/b.xlsx''" and pl = demo_platform
      and pairs = "[]" and temps = "[]" and w = ?w and cp = "''/tmp/b.csv''" and fs' = ?fs'
      and src = "[]"] h2 h3
  have "prepare_step demo_platform ([], [], ?w) ''d/b.xlsx'' =
       Inr ([] @ [(''/tmp/b.csv'', path_stem ''d/b.xlsx'' @ ''_converted.csv'')],
            [] @ [''/tmp/b.csv''], ?w\<lparr>files := ?fs'\<rparr>)"
    by blast
  then have s2: "prepare_step demo_platform ([], [], ?w) ''d/b.xlsx'' =
       Inr ([(''/tmp/b.csv'', ''b_converted.csv'')], [''/tmp/b.csv''], demo_world ?fs')"
    by (simp add: e2 e5)
  from h1 h2 h3 s1 s2 s3 run show ?thesis by blast
qed

text \<open>
  Claim C5. When the configured path names an existing regular file, the resolver returns
  exactly that one path, whatever its extension, and touches nothing.
\<close>

theorem find_sources_single_file:
  assumes "isfile fs (csv_target cfg)"
  shows "find_sources cfg fs = Inr ([csv_target cfg], fs)"
  using assms by (simp add: find_sources_def)

theorem find_sources_single_file_witness:
  "isfile [(''notes.txt'', File (Raw ''hello''))] (csv_target (demo_config ''notes.txt'')) \<and>
   find_sources (demo_config ''notes.txt'') [(''notes.txt'', File (Raw ''hello''))]
     = Inr ([''notes.txt''], [(''notes.txt'', File (Raw ''hello''))])"
proof -
  have h: "isfile [(''notes.txt'', File (Raw ''hello''))] (csv_target (demo_config ''notes.txt''))"
    by (simp add: isfile_def demo_config_def)
  from find_sources_single_file [OF h] h show ?thesis
    by (simp add: demo_config_def)
qed




text \<open>
  Claim C7. When the credential \<^verbatim>\<open>BOT_TOKEN\<close> is unset or empty, start-up raises and no
  configuration results.
\<close>

theorem startup_requires_token:
  assumes "env ''BOT_TOKEN'' = None \<or> env ''BOT_TOKEN'' = Some []"
  shows "startup env normalise = Inl RuntimeError"
  using assms by (auto simp: startup_def getenv_def strip_empty Let_def)

theorem startup_requires_token_witness:
  "startup Map.empty id = Inl RuntimeError \<and>
   startup [''BOT_TOKEN'' \<mapsto> []] id = Inl RuntimeError"
  using startup_requires_token [of Map.empty id]
        startup_requires_token [of "[''BOT_TOKEN'' \<mapsto> []]" id]
  by simp

text \<open>
  Claim C8. Running the normaliser on the same paths again, from the world the first run
  left, gives the same result. When the first run returns, the second returns the same
  entries (paths and display names, in the same order) and the same temporary files, and
  leaves every file with the content it had after the first run. When an exception left
  the first run, the same exception leaves the second, which again leaves every file with
  the content it had.
\<close>

theorem prepare_twice_same:
  "(case prepare pl src w of
      Inr (pairs1, temps1, w1) \<Rightarrow>
        (case prepare pl src w1 of
           Inr (pairs2, temps2, w2) \<Rightarrow>
             pairs2 = pairs1 \<and> temps2 = temps1 \<and> map_of (files w2) = map_of (files w1)
         | Inl (x2, w2) \<Rightarrow> False)
    | Inl (x1, w1) \<Rightarrow>
        (case prepare pl src w1 of
           Inr (pairs2, temps2, w2) \<Rightarrow> False
         | Inl (x2, w2) \<Rightarrow> x2 = x1 \<and> map_of (files w2) = map_of (files w1)))"
proof (cases "prepare pl src w")
  case (Inl a)
  obtain x1 w1 where a: "a = (x1, w1)" by (cases a)
  with Inl have run: "prepare pl src w = Inl (x1, w1)" by simp
  note d = prepare_InlD [OF same_inputs_refl run]
  show ?thesis
  proof (cases "prepare pl src w1")
    case (Inl b)
    obtain x2 w2 where b: "b = (x2, w2)" by (cases b)
    with Inl have run2: "prepare pl src w1 = Inl (x2, w2)" by simp
    note d2 = prepare_InlD [OF d(2) run2]
    from d(1) d2(1) have "x2 = x1" by simp
    moreover from d(3) d2(3) have "map_of (files w2) = map_of (files w1)"
      by (rule fold_upd_twice)
    ultimately show ?thesis by (simp add: run run2)
  next
    case (Inr r)
    obtain ps2 ts2 w2 where "r = (ps2, ts2, w2)" by (cases r)
    with Inr have "prepare pl src w1 = Inr (ps2, ts2, w2)" by simp
    from prepare_InrD(1) [OF d(2) this] d(1) show ?thesis by simp
  qed
next
  case (Inr r)
  obtain pairs1 temps1 w1 where r: "r = (pairs1, temps1, w1)" by (cases r)
  with Inr have run: "prepare pl src w = Inr (pairs1, temps1, w1)" by simp
  note d = prepare_InrD [OF same_inputs_refl run]
  show ?thesis
  proof (cases "prepare pl src w1")
    case (Inl b)
    obtain x2 w2 where "b = (x2, w2)" by (cases b)
    with Inl have "prepare pl src w1 = Inl (x2, w2)" by simp
    from prepare_InlD(1) [OF d(4) this] d(1) show ?thesis by simp
  next
    case (Inr r2)
    obtain ps2 ts2 w2 where "r2 = (ps2, ts2, w2)" by (cases r2)
    with Inr have run2: "prepare pl src w1 = Inr (ps2, ts2, w2)" by simp
    note d2 = prepare_InrD [OF d(4) run2]
    from d(5) d2(5) have "map_of (files w2) = map_of (files w1)"
      by (rule fold_upd_twice)
    with d(2,3) d2(2,3) show ?thesis by (simp add: run run2)
  qed
qed

theorem prepare_twice_same_witness:
  "prepare demo_platform [''d/a.csv'', ''d/b.xlsx'', ''d/n.txt''] (demo_world demo_files) =
     Inr ([(''d/a.csv'', ''a.csv''), (''/tmp/b.csv'', ''b_converted.csv'')], [''/tmp/b.csv''],
      demo_world (demo_files @ [(''/tmp/b.csv'', File (Raw ''sheet''))]))
   \<and> (\<exists>w2. prepare demo_platform [''d/a.csv'', ''d/b.xlsx'', ''d/n.txt'']
            (demo_world (demo_files @ [(''/tmp/b.csv'', File (Raw ''sheet''))])) =
         Inr ([(''d/a.csv'', ''a.csv''), (''/tmp/b.csv'', ''b_converted.csv'')], [''/tmp/b.csv''], w2)
       \<and> map_of (files w2) = map_of (demo_files @ [(''/tmp/b.csv'', File (Raw ''sheet''))]))"
proof -
  let ?src = "[''d/a.csv'', ''d/b.xlsx'', ''d/n.txt'']"
  let ?w1 = "demo_world (demo_files @ [(''/tmp/b.csv'', File (Raw ''sheet''))])"
  have e: "prepare demo_platform ?src (demo_world demo_files) =
     Inr ([(''d/a.csv'', ''a.csv''), (''/tmp/b.csv'', ''b_converted.csv'')], [''/tmp/b.csv''], ?w1)"
    by code_simp
  have "case prepare demo_platform ?src ?w1 of
           Inr (pairs2, temps2, w2) \<Rightarrow>
             pairs2 = [(''d/a.csv'', ''a.csv''), (''/tmp/b.csv'', ''b_converted.csv'')]
             \<and> temps2 = [''/tmp/b.csv''] \<and> map_of (files w2) = map_of (files ?w1)
         | Inl (x2, w2) \<Rightarrow> False"
    using prepare_twice_same [where pl = demo_platform and src = ?src and w = "demo_world demo_files"]
    by (simp add: e)
  then have "\<exists>w2. prepare demo_platform ?src ?w1 =
         Inr ([(''d/a.csv'', ''a.csv''), (''/tmp/b.csv'', ''b_converted.csv'')], [''/tmp/b.csv''], w2)
       \<and> map_of (files w2) = map_of (files ?w1)"
    by (auto split: sum.splits)
  with e show ?thesis by (simp add: files_demo_world)
qed

text \<open>
  The claim is about the same paths. \<^verbatim>\<open>prepare_files\<close> resolves its paths anew on every
  call: when the source directory is the temporary directory, the second call finds the
  first call's output among its sources.
\<close>

lemma prepare_files_resolves_anew:
  "prepare_files (demo_config ''/tmp'') demo_platform (demo_world scratch_as_source) =
     Inr ([(''/tmp/a.csv'', ''a_converted.csv'')], [''/tmp/a.csv''],
          demo_world (scratch_as_source @ [(''/tmp/a.csv'', File (Raw ''sheet''))]))
   \<and> prepare_files (demo_config ''/tmp'') demo_platform
        (demo_world (scratch_as_source @ [(''/tmp/a.csv'', File (Raw ''sheet''))])) =
     Inr ([(''/tmp/a.csv'', ''a.csv''), (''/tmp/a.csv'', ''a_converted.csv'')], [''/tmp/a.csv''],
          demo_world (scratch_as_source @ [(''/tmp/a.csv'', File (Raw ''sheet''))]))"
  by code_simp

text \<open>
  Claim C9. When the configured path is a regular file whose name ends in none of
  \<^verbatim>\<open>.csv\<close>, \<^verbatim>\<open>.xlsx\<close>, \<^verbatim>\<open>.xls\<close>, the resolver returns it, the normaliser returns no entry
  and no temporary file and changes nothing, and both handlers, the channel delivering,
  answer with the link and then the no-files text naming the configured path.
\<close>

theorem unsupported_single_file_dropped:
  assumes "isfile (files w) (csv_target cfg)"
    and "\<not> is_csv (csv_target cfg)" and "\<not> is_excel (csv_target cfg)"
    and "deliver pl (link_message cfg)"
    and "deliver pl (ReplyText (no_files_text (csv_target cfg)))"
  shows "find_sources cfg (files w) = Inr ([csv_target cfg], files w)
     \<and> prepare_files cfg pl w = Inr ([], [], w)
     \<and> send_zip cfg pl w =
         (None, w\<lparr>outbox := outbox w @
            [link_message cfg, ReplyText (no_files_text (csv_target cfg))]\<rparr>)
     \<and> send_files cfg pl w =
         (None, w\<lparr>outbox := outbox w @
            [link_message cfg, ReplyText (no_files_text (csv_target cfg))]\<rparr>)"
proof -
  have p: "\<And>v. files v = files w \<Longrightarrow> prepare_files cfg pl v = Inr ([], [], v)"
    using assms(1-3)
    by (simp add: prepare_files_def find_sources_def prepare_def prepare_step_def)
  have q: "prepare_files cfg pl (w\<lparr>outbox := outbox w @ [link_message cfg]\<rparr>)
            = Inr ([], [], w\<lparr>outbox := outbox w @ [link_message cfg]\<rparr>)"
    by (rule p) simp
  show ?thesis
    using assms p [of w] q
    by (simp add: find_sources_def send_zip_def send_files_def send_link_def reply_def
                  target_hint_def)
qed

theorem unsupported_single_file_dropped_witness:
  "isfile (files (demo_world [(''notes.txt'', File (Raw ''hello''))])) (csv_target (demo_config ''notes.txt''))
   \<and> \<not> is_csv (csv_target (demo_config ''notes.txt''))
   \<and> \<not> is_excel (csv_target (demo_config ''notes.txt''))
   \<and> find_sources (demo_config ''notes.txt'') [(''notes.txt'', File (Raw ''hello''))] =
        Inr ([''notes.txt''], [(''notes.txt'', File (Raw ''hello''))])
   \<and> prepare_files (demo_config ''notes.txt'') demo_platform
        (demo_world [(''notes.txt'', File (Raw ''hello''))]) =
        Inr ([], [], demo_world [(''notes.txt'', File (Raw ''hello''))])
   \<and> outbox (snd (send_zip (demo_config ''notes.txt'') demo_platform
        (demo_world [(''notes.txt'', File (Raw ''hello''))]))) =
        [link_message (demo_config ''notes.txt''),
         ReplyText ''No CSV/Excel files found at notes.txt'']
   \<and> outbox (snd (send_files (demo_config ''notes.txt'') demo_platform
        (demo_world [(''notes.txt'', File (Raw ''hello''))]))) =
        [link_message (demo_config ''notes.txt''),
         ReplyText ''No CSV/Excel files found at notes.txt'']"
proof -
  let ?w = "demo_world [(''notes.txt'', File (Raw ''hello''))]"
  let ?cfg = "demo_config ''notes.txt''"
  have t: "csv_target ?cfg = ''notes.txt''" by (simp add: demo_config_def)
  have h1: "isfile (files ?w) (csv_target ?cfg)"
    by (simp add: t files_demo_world isfile_def)
  have h2: "\<not> is_csv (csv_target ?cfg)" unfolding t by code_simp
  have h3: "\<not> is_excel (csv_target ?cfg)" unfolding t by code_simp
  have h4: "deliver demo_platform (link_message ?cfg)"
    by (simp add: demo_platform_def)
  have h5: "deliver demo_platform (ReplyText (no_files_text (csv_target ?cfg)))"
    by (simp add: demo_platform_def)
  have n: "no_files_text ''notes.txt'' = ''No CSV/Excel files found at notes.txt''"
    by (simp add: no_files_text_def)
  from unsupported_single_file_dropped [OF h1 h2 h3 h4 h5] h1 h2 h3
  show ?thesis
    by (simp add: t n files_demo_world demo_world_def)
qed

text \<open>
  Claim C10. Two convertible workbooks with the same stem are written to the same path of
  the temporary directory: each gives the entry with that path and the display name stem
  plus \<^verbatim>\<open>_converted.csv\<close>, and that path as a temporary file; run one after the other, the
  normaliser returns the entry twice and the path twice, and the file holds the text of
  the second workbook. In any run that returns, the entries and the temporary files are
  those of the paths in order, so each of the two paths contributes that entry and that
  path; a run does not return only when the warning of some other, failed conversion
  could not be printed.
\<close>

theorem same_stem_conversions_collide:
  assumes "is_excel p1" and "is_excel p2" and "path_stem p1 = path_stem p2"
    and "map_of (files w) p1 = Some (File c1)" and "map_of (files w) p2 = Some (File c2)"
    and "excel_to_csv pl c1 = Some d1" and "excel_to_csv pl c2 = Some d2"
    and "\<not> isdir (files w) (join (tempdir pl) (path_stem p1 @ ''.csv''))"
  shows "convert_excel_to_csv pl p1 (files w) =
            Inr (join (tempdir pl) (path_stem p1 @ ''.csv''),
                 write_file (join (tempdir pl) (path_stem p1 @ ''.csv'')) d1 (files w))
     \<and> convert_excel_to_csv pl p2
            (write_file (join (tempdir pl) (path_stem p1 @ ''.csv'')) d1 (files w)) =
            Inr (join (tempdir pl) (path_stem p1 @ ''.csv''),
                 write_file (join (tempdir pl) (path_stem p1 @ ''.csv'')) d2
                   (write_file (join (tempdir pl) (path_stem p1 @ ''.csv'')) d1 (files w)))
     \<and> (\<exists>w'. prepare pl [p1, p2] w =
            Inr ([(join (tempdir pl) (path_stem p1 @ ''.csv''), path_stem p1 @ ''_converted.csv''),
                  (join (tempdir pl) (path_stem p1 @ ''.csv''), path_stem p1 @ ''_converted.csv'')],
                 [join (tempdir pl) (path_stem p1 @ ''.csv''),
                  join (tempdir pl) (path_stem p1 @ ''.csv'')], w')
          \<and> map_of (files w') (join (tempdir pl) (path_stem p1 @ ''.csv'')) = Some (File d2))
     \<and> (case prepare pl src w of
            Inr (ps, ts, w') \<Rightarrow>
              ps = List.map_filter (entry_for pl (files w)) src
              \<and> ts = List.map_filter (temp_for pl (files w)) src
          | Inl (x, w') \<Rightarrow> first_fault pl (files w) src = Some x)
     \<and> entry_for pl (files w) p1 =
          Some (join (tempdir pl) (path_stem p1 @ ''.csv''), path_stem p1 @ ''_converted.csv'')
     \<and> entry_for pl (files w) p2 =
          Some (join (tempdir pl) (path_stem p1 @ ''.csv''), path_stem p1 @ ''_converted.csv'')
     \<and> temp_for pl (files w) p1 = Some (join (tempdir pl) (path_stem p1 @ ''.csv''))
     \<and> temp_for pl (files w) p2 = Some (join (tempdir pl) (path_stem p1 @ ''.csv''))"
proof -
  let ?cp = "join (tempdir pl) (path_stem p1 @ ''.csv'')"
  have o1: "out_path pl p1 = ?cp" and o2: "out_path pl p2 = ?cp"
    using assms(3) by (simp_all add: out_path_def)
  have c1: "converted pl (files w) p1 = Some (?cp, d1)"
    using assms(4,6,8) by (simp add: converted_def o1)
  have c2': "converted pl (files w) p2 = Some (?cp, d2)"
    using assms(5,7,8) by (simp add: converted_def o2)
  have ne: "p2 \<noteq> ?cp" using assms(2) out_path_not_excel [of pl p2] o2 by auto
  have c2: "converted pl (write_file ?cp d1 (files w)) p2 = Some (?cp, d2)"
    using assms(5,7,8) ne by (simp add: converted_def o2 map_of_write_file isdir_write_file)
  have a: "convert_excel_to_csv pl p1 (files w) = Inr (?cp, write_file ?cp d1 (files w))"
    using c1 by (simp add: convert_Inr_iff)
  have b: "convert_excel_to_csv pl p2 (write_file ?cp d1 (files w)) =
             Inr (?cp, write_file ?cp d2 (write_file ?cp d1 (files w)))"
    using c2 by (simp add: convert_Inr_iff)
  have two: "\<exists>w'. prepare pl [p1, p2] w =
            Inr ([(?cp, path_stem p1 @ ''_converted.csv''), (?cp, path_stem p1 @ ''_converted.csv'')],
                 [?cp, ?cp], w')
          \<and> map_of (files w') ?cp = Some (File d2)"
    using assms(1,2) a b
    by (simp add: prepare_def prepare_step_excel assms(3) map_of_write_file)
  have gen: "(case prepare pl src w of
            Inr (ps, ts, w') \<Rightarrow>
              ps = List.map_filter (entry_for pl (files w)) src
              \<and> ts = List.map_filter (temp_for pl (files w)) src
          | Inl (x, w') \<Rightarrow> first_fault pl (files w) src = Some x)"
    using prepare_spec [OF same_inputs_refl, where pl = pl and src = src and w = w]
    by (simp split: sum.splits prod.splits)
  have e1: "entry_for pl (files w) p1 = Some (?cp, path_stem p1 @ ''_converted.csv'')"
    using assms(1) excel_not_csv [of p1] c1 by (simp add: entry_for_def)
  have e2: "entry_for pl (files w) p2 = Some (?cp, path_stem p1 @ ''_converted.csv'')"
    using assms(2,3) excel_not_csv [of p2] c2' by (simp add: entry_for_def)
  have t1: "temp_for pl (files w) p1 = Some ?cp"
    using assms(1) c1 by (simp add: temp_for_def)
  have t2: "temp_for pl (files w) p2 = Some ?cp"
    using assms(2) c2' by (simp add: temp_for_def)
  from a b two gen e1 e2 t1 t2 show ?thesis by blast
qed

theorem same_stem_conversions_collide_witness:
  "is_excel ''d/s.xls'' \<and> is_excel ''d/s.xlsx''
   \<and> path_stem ''d/s.xls'' = path_stem ''d/s.xlsx''
   \<and> find_sources (demo_config ''d'') twin_files = Inr ([''d/s.xls'', ''d/s.xlsx''], twin_files)
   \<and> (\<exists>w'. prepare demo_platform [''d/s.xls'', ''d/s.xlsx''] (demo_world twin_files) =
          Inr ([(''/tmp/s.csv'', ''s_converted.csv''), (''/tmp/s.csv'', ''s_converted.csv'')],
               [''/tmp/s.csv'', ''/tmp/s.csv''], w')
        \<and> map_of (files w') ''/tmp/s.csv'' = Some (File (Raw ''new'')))"
proof -
  let ?w = "demo_world twin_files"
  have h1: "is_excel ''d/s.xls''" by code_simp
  have h2: "is_excel ''d/s.xlsx''" by code_simp
  have h3: "path_stem ''d/s.xls'' = path_stem ''d/s.xlsx''" by code_simp
  have h4: "map_of (files ?w) ''d/s.xls'' = Some (File (Raw ''old''))"
    by (simp add: files_demo_world twin_files_def)
  have h5: "map_of (files ?w) ''d/s.xlsx'' = Some (File (Raw ''new''))"
    by (simp add: files_demo_world twin_files_def)
  have h6: "excel_to_csv demo_platform (Raw ''old'') = Some (Raw ''old'')"
    by (simp add: demo_platform_def)
  have h7: "excel_to_csv demo_platform (Raw ''new'') = Some (Raw ''new'')"
    by (simp add: demo_platform_def)
  have j: "join (tempdir demo_platform) (path_stem ''d/s.xls'' @ ''.csv'') = ''/tmp/s.csv''"
    by code_simp
  have h8: "\<not> isdir (files ?w) (join (tempdir demo_platform) (path_stem ''d/s.xls'' @ ''.csv''))"
    unfolding j files_demo_world by code_simp
  have s: "path_stem ''d/s.xls'' = ''s''" by code_simp
  have f: "find_sources (demo_config ''d'') twin_files = Inr ([''d/s.xls'', ''d/s.xlsx''], twin_files)"
    by code_simp
  from same_stem_conversions_collide [OF h1 h2 h3 h4 h5 h6 h7 h8, where src = "[]"]
  have "\<exists>w'. prepare demo_platform [''d/s.xls'', ''d/s.xlsx''] ?w =
          Inr ([(join (tempdir demo_platform) (path_stem ''d/s.xls'' @ ''.csv''),
                 path_stem ''d/s.xls'' @ ''_converted.csv''),
                (join (tempdir demo_platform) (path_stem ''d/s.xls'' @ ''.csv''),
                 path_stem ''d/s.xls'' @ ''_converted.csv'')],
               [join (tempdir demo_platform) (path_stem ''d/s.xls'' @ ''.csv''),
                join (tempdir demo_platform) (path_stem ''d/s.xls'' @ ''.csv'')], w')
        \<and> map_of (files w') (join (tempdir demo_platform) (path_stem ''d/s.xls'' @ ''.csv''))
            = Some (File (Raw ''new''))"
    by blast
  then have r: "\<exists>w'. prepare demo_platform [''d/s.xls'', ''d/s.xlsx''] ?w =
          Inr ([(''/tmp/s.csv'', ''s_converted.csv''), (''/tmp/s.csv'', ''s_converted.csv'')],
               [''/tmp/s.csv'', ''/tmp/s.csv''], w')
        \<and> map_of (files w') ''/tmp/s.csv'' = Some (File (Raw ''new''))"
    unfolding j unfolding s by simp
  from h1 h2 h3 f r show ?thesis by blast
qed

end
